theory Spec2Isabelle
  imports Complex_Main
begin

section \<open>Ray/AABB picking: the data model\<close>

text \<open>
  The picking helper of \<^verbatim>\<open>MainCode.cpp\<close> works on \<^verbatim>\<open>float\<close> values. They are
  modelled by \<^typ>\<open>real\<close>: arithmetic is exact and there is neither NaN nor an
  infinity. A \<^verbatim>\<open>float\<close> literal denotes the binary32 value the compiler gives it; the
  two literals of the source that are not binary fractions, \<^verbatim>\<open>1e-6f\<close> and \<^verbatim>\<open>0.3f\<close>, are
  written as those values. Every comparison and every branch of the source is kept as it
  is written.
\<close>

text \<open>\<^verbatim>\<open>glm::vec3\<close>: three components, read by name or by index 0, 1, 2.\<close>

record vec3 =
  vx :: real
  vy :: real
  vz :: real

text \<open>The constructor \<^verbatim>\<open>glm::vec3(a, b, c)\<close>.\<close>

definition vec3 :: "real \<Rightarrow> real \<Rightarrow> real \<Rightarrow> vec3" where
  "vec3 a b c = \<lparr>vx = a, vy = b, vz = c\<rparr>"

text \<open>
  \<^verbatim>\<open>v[axis]\<close>. The slab loop only uses the indices 0, 1 and 2; every other index is
  out of range in the source and is not used here.
\<close>

definition vec3_at :: "vec3 \<Rightarrow> nat \<Rightarrow> real" where
  "vec3_at v axis = (if axis = 0 then vx v else if axis = 1 then vy v else vz v)"

text \<open>\<^verbatim>\<open>struct Ray { glm::vec3 origin; glm::vec3 dir; }\<close>\<close>

record Ray =
  origin :: vec3
  dir :: vec3

text \<open>
  \<^verbatim>\<open>struct AABB { glm::vec3 min; glm::vec3 max; }\<close>; the fields are named
  \<open>min_corner\<close> and \<open>max_corner\<close> because \<open>min\<close> and \<open>max\<close> are constants of HOL.
\<close>

record AABB =
  min_corner :: vec3
  max_corner :: vec3

text \<open>
  \<^verbatim>\<open>const float EPS = 1e-6f\<close>: the binary32 number nearest to \<open>10\<^sup>-\<^sup>6\<close>, which is
  \<^verbatim>\<open>8796093 / 2^43\<close>, a little below \<open>10\<^sup>-\<^sup>6\<close>.
\<close>

definition EPS :: real where
  "EPS = 8796093 / 8796093022208"

text \<open>
  \<^verbatim>\<open>std::numeric_limits<float>::max()\<close>, the largest finite \<^verbatim>\<open>float\<close>:
  \<^verbatim>\<open>(2^24 - 1) * 2^104\<close>.
\<close>

definition FLT_MAX :: real where
  "FLT_MAX = 340282346638528859811704183484516925440"

section \<open>The intersector \<^verbatim>\<open>rayAabbSlab\<close>\<close>

text \<open>
  The test at the head of \<^verbatim>\<open>rayAabbSlab\<close>: the ray origin lies in the box on all
  three axes.
\<close>

definition inside :: "Ray \<Rightarrow> AABB \<Rightarrow> bool" where
  "inside r box \<longleftrightarrow>
     vx (origin r) \<ge> vx (min_corner box) \<and> vx (origin r) \<le> vx (max_corner box) \<and>
     vy (origin r) \<ge> vy (min_corner box) \<and> vy (origin r) \<le> vy (max_corner box) \<and>
     vz (origin r) \<ge> vz (min_corner box) \<and> vz (origin r) \<le> vz (max_corner box)"

text \<open>
  The non-parallel case of the loop body: the parameters at which the ray crosses the two
  planes of the slab of \<open>axis\<close>, exchanged when \<^verbatim>\<open>invDir < 0.0f\<close>. The division
  \<^verbatim>\<open>1.0f / r.dir[axis]\<close> is the only division of the function.
\<close>

definition slabInterval :: "Ray \<Rightarrow> AABB \<Rightarrow> nat \<Rightarrow> real \<times> real" where
  "slabInterval r box axis =
     (let invDir = 1 / vec3_at (dir r) axis;
          t0 = (vec3_at (min_corner box) axis - vec3_at (origin r) axis) * invDir;
          t1 = (vec3_at (max_corner box) axis - vec3_at (origin r) axis) * invDir
      in if invDir < 0 then (t1, t0) else (t0, t1))"

text \<open>
  The loop \<^verbatim>\<open>for (int axis = 0; axis < 3; ++axis)\<close>, entered at \<open>axis\<close> with the
  current \<open>tMin\<close> and \<open>tMax\<close>. \<open>None\<close> is the \<^verbatim>\<open>return false\<close> inside the loop;
  \<open>Some (tMin, tMax)\<close> is the pair the loop leaves behind when it runs to its end.
\<close>

function slabLoop :: "Ray \<Rightarrow> AABB \<Rightarrow> nat \<Rightarrow> real \<Rightarrow> real \<Rightarrow> (real \<times> real) option" where
  "slabLoop r box axis tMin tMax =
     (if axis < 3 then
        (if \<bar>vec3_at (dir r) axis\<bar> < EPS then
           (if vec3_at (origin r) axis < vec3_at (min_corner box) axis
               \<or> vec3_at (origin r) axis > vec3_at (max_corner box) axis
            then None
            else slabLoop r box (axis + 1) tMin tMax)
         else
           (case slabInterval r box axis of (t0, t1) \<Rightarrow>
              (let tMin' = (if t0 > tMin then t0 else tMin);
                   tMax' = (if t1 < tMax then t1 else tMax)
               in if tMin' > tMax' then None
                  else slabLoop r box (axis + 1) tMin' tMax')))
      else Some (tMin, tMax))"
  by pat_completeness auto
termination
  by (relation "measure (\<lambda>(r, box, axis, tMin, tMax). 3 - axis)") auto

declare slabLoop.simps [simp del]

text \<open>
  The results of the function: \<open>Some t\<close> is \<^verbatim>\<open>return true\<close> with \<^verbatim>\<open>tNear = t\<close>,
  \<open>None\<close> is \<^verbatim>\<open>return false\<close> (which leaves \<^verbatim>\<open>tNear\<close> untouched).

  The code after the loop, on the \<open>tMin\<close> and \<open>tMax\<close> the loop leaves behind:
  \<^verbatim>\<open>if (tMin >= 0.0f) { tNear = tMin; return true; }\<close>, then
  \<^verbatim>\<open>if (tMax >= 0.0f) { tNear = tMax; return true; }\<close>, then \<^verbatim>\<open>return false\<close>.
\<close>

definition slabFinish :: "real \<Rightarrow> real \<Rightarrow> real option" where
  "slabFinish tMin tMax =
     (if tMin \<ge> 0 then Some tMin
      else if tMax \<ge> 0 then Some tMax
      else None)"

text \<open>
  \<^verbatim>\<open>static bool rayAabbSlab(const Ray& r, const AABB& box, float& tNear)\<close>: the test
  of the origin, the loop entered at axis 0 with \<^verbatim>\<open>tMin = 0.0f\<close> and
  \<^verbatim>\<open>tMax = std::numeric_limits<float>::max()\<close>, and the code after the loop.
\<close>

definition rayAabbSlab :: "Ray \<Rightarrow> AABB \<Rightarrow> real option" where
  "rayAabbSlab r box =
     (if inside r box then Some 0
      else (case slabLoop r box 0 0 FLT_MAX of
              None \<Rightarrow> None
            | Some (tMin, tMax) \<Rightarrow> slabFinish tMin tMax))"

text \<open>The invariant the data model asks of a box: \<open>min \<le> max\<close> on every axis.\<close>

definition box_ok :: "AABB \<Rightarrow> bool" where
  "box_ok box \<longleftrightarrow>
     vx (min_corner box) \<le> vx (max_corner box) \<and>
     vy (min_corner box) \<le> vy (max_corner box) \<and>
     vz (min_corner box) \<le> vz (max_corner box)"

text \<open>
  One box encloses another: its minimum corner is not above, and its maximum corner not
  below, on every axis.
\<close>

definition encloses :: "AABB \<Rightarrow> AABB \<Rightarrow> bool" where
  "encloses box' box \<longleftrightarrow>
     vx (min_corner box') \<le> vx (min_corner box) \<and> vx (max_corner box) \<le> vx (max_corner box') \<and>
     vy (min_corner box') \<le> vy (min_corner box) \<and> vy (max_corner box) \<le> vy (max_corner box') \<and>
     vz (min_corner box') \<le> vz (min_corner box) \<and> vz (max_corner box) \<le> vz (max_corner box')"

section \<open>The plan variant of the intersector\<close>

text \<open>
  The Milestone One plan gives a second \<^verbatim>\<open>rayAabbSlab\<close>. Its \<^verbatim>\<open>tmax\<close> starts at
  \<^verbatim>\<open>std::numeric_limits<float>::infinity()\<close>, so the upper bound is either a number or
  infinite.
\<close>

datatype tbound = Finite real | Infinity

text \<open>\<^verbatim>\<open>std::min(tmax, t2)\<close> for a finite \<open>t2\<close>: \<^verbatim>\<open>(t2 < tmax) ? t2 : tmax\<close>.\<close>

fun min_bound :: "tbound \<Rightarrow> real \<Rightarrow> real" where
  "min_bound Infinity t2 = t2"
| "min_bound (Finite m) t2 = (if t2 < m then t2 else m)"

text \<open>\<^verbatim>\<open>tmin > tmax\<close> for a finite \<open>tmin\<close>.\<close>

fun gt_bound :: "real \<Rightarrow> tbound \<Rightarrow> bool" where
  "gt_bound tmin Infinity = False"
| "gt_bound tmin (Finite m) = (tmin > m)"

text \<open>
  The plan's loop \<^verbatim>\<open>for (int i = 0; i < 3; ++i)\<close>: no test of the origin before it,
  and \<^verbatim>\<open>if (t1 > t2) std::swap(t1, t2)\<close> in place of the test of \<^verbatim>\<open>invDir\<close>.
\<close>

function planLoop :: "Ray \<Rightarrow> AABB \<Rightarrow> nat \<Rightarrow> real \<Rightarrow> tbound \<Rightarrow> (real \<times> tbound) option" where
  "planLoop r box i tmin tmax =
     (if i < 3 then
        (let o_i = vec3_at (origin r) i; d = vec3_at (dir r) i;
             bmin = vec3_at (min_corner box) i; bmax = vec3_at (max_corner box) i
         in if \<bar>d\<bar> < EPS then
              (if o_i < bmin \<or> o_i > bmax then None
               else planLoop r box (i + 1) tmin tmax)
            else
              (let inv = 1 / d;
                   t1 = (bmin - o_i) * inv;
                   t2 = (bmax - o_i) * inv;
                   t1s = (if t1 > t2 then t2 else t1);
                   t2s = (if t1 > t2 then t1 else t2);
                   tmin' = (if tmin < t1s then t1s else tmin);
                   tmax' = Finite (min_bound tmax t2s)
               in if gt_bound tmin' tmax' then None
                  else planLoop r box (i + 1) tmin' tmax'))
      else Some (tmin, tmax))"
  by pat_completeness auto
termination
  by (relation "measure (\<lambda>(r, box, i, tmin, tmax). 3 - i)") auto

declare planLoop.simps [simp del]

text \<open>
  The plan's function: after the loop it always returns \<^verbatim>\<open>true\<close>, with
  \<^verbatim>\<open>tNear = (tmin >= 0.0f) ? tmin : 0.0f\<close>.
\<close>

definition rayAabbSlab_plan :: "Ray \<Rightarrow> AABB \<Rightarrow> real option" where
  "rayAabbSlab_plan r box =
     (case planLoop r box 0 0 Infinity of
        None \<Rightarrow> None
      | Some (tmin, tmax) \<Rightarrow> Some (if tmin \<ge> 0 then tmin else 0))"

section \<open>The divisions of \<^verbatim>\<open>rayAabbSlab\<close>\<close>

text \<open>
  The same loop, which also records the divisor of every division \<^verbatim>\<open>1.0f / r.dir[axis]\<close>
  it performs, in the order of execution. The list \<open>ds\<close> holds the divisors so far.
\<close>

function slabLoop_divs ::
  "Ray \<Rightarrow> AABB \<Rightarrow> nat \<Rightarrow> real \<Rightarrow> real \<Rightarrow> real list \<Rightarrow> (real \<times> real) option \<times> real list" where
  "slabLoop_divs r box axis tMin tMax ds =
     (if axis < 3 then
        (if \<bar>vec3_at (dir r) axis\<bar> < EPS then
           (if vec3_at (origin r) axis < vec3_at (min_corner box) axis
               \<or> vec3_at (origin r) axis > vec3_at (max_corner box) axis
            then (None, ds)
            else slabLoop_divs r box (axis + 1) tMin tMax ds)
         else
           (case slabInterval r box axis of (t0, t1) \<Rightarrow>
              (let ds' = ds @ [vec3_at (dir r) axis];
                   tMin' = (if t0 > tMin then t0 else tMin);
                   tMax' = (if t1 < tMax then t1 else tMax)
               in if tMin' > tMax' then (None, ds')
                  else slabLoop_divs r box (axis + 1) tMin' tMax' ds')))
      else (Some (tMin, tMax), ds))"
  by pat_completeness auto
termination
  by (relation "measure (\<lambda>(r, box, axis, tMin, tMax, ds). 3 - axis)") auto

declare slabLoop_divs.simps [simp del]

text \<open>
  \<^verbatim>\<open>rayAabbSlab\<close> with the divisors it used: none when the origin is inside the box, since
  the function returns before the loop.
\<close>

definition rayAabbSlab_divs :: "Ray \<Rightarrow> AABB \<Rightarrow> real option \<times> real list" where
  "rayAabbSlab_divs r box =
     (if inside r box then (Some 0, [])
      else (case slabLoop_divs r box 0 0 FLT_MAX [] of
              (None, ds) \<Rightarrow> (None, ds)
            | (Some (tMin, tMax), ds) \<Rightarrow> (slabFinish tMin tMax, ds)))"

section \<open>The picker \<^verbatim>\<open>pickObjectId\<close>\<close>

text \<open>\<^verbatim>\<open>struct ObjectBounds { int id; AABB bounds; }\<close>; \<open>id\<close> is a constant of HOL.\<close>

record ObjectBounds =
  ob_id :: int
  bounds :: AABB

text \<open>
  The table \<^verbatim>\<open>objects[]\<close> of \<^verbatim>\<open>pickObjectId\<close>. The \<^verbatim>\<open>0.3f\<close> of the last row is the
  binary32 number \<^verbatim>\<open>5033165 / 2^24\<close>; every other entry is a binary fraction.
\<close>

definition objects :: "ObjectBounds list" where
  "objects =
     [\<lparr>ob_id = 0, bounds = \<lparr>min_corner = vec3 (-1) 0 (-1), max_corner = vec3 1 2 1\<rparr>\<rparr>,
      \<lparr>ob_id = 1, bounds = \<lparr>min_corner = vec3 2 0 (-0.5), max_corner = vec3 3 1.5 0.5\<rparr>\<rparr>,
      \<lparr>ob_id = 2, bounds = \<lparr>min_corner = vec3 (-2) 0 1, max_corner = vec3 (-1.5) 0.5 2\<rparr>\<rparr>,
      \<lparr>ob_id = 3, bounds = \<lparr>min_corner = vec3 0 0 2, max_corner = vec3 0.5 1 2.5\<rparr>\<rparr>,
      \<lparr>ob_id = 4, bounds = \<lparr>min_corner = vec3 (-0.5) 0 (-2), max_corner = vec3 0.5 (5033165 / 16777216) (-1.5)\<rparr>\<rparr>]"

text \<open>
  The loop over the table, on the candidates still to visit, with the current
  \<open>closestId\<close> and \<open>closestT\<close>; it returns the final \<open>closestId\<close>.
\<close>

fun pickLoop :: "Ray \<Rightarrow> ObjectBounds list \<Rightarrow> int \<Rightarrow> real \<Rightarrow> int" where
  "pickLoop r [] closestId closestT = closestId"
| "pickLoop r (ob # obs) closestId closestT =
     (case rayAabbSlab r (bounds ob) of
        Some tNear \<Rightarrow>
          (if tNear \<ge> 0 \<and> tNear < closestT
           then pickLoop r obs (ob_id ob) tNear
           else pickLoop r obs closestId closestT)
      | None \<Rightarrow> pickLoop r obs closestId closestT)"

text \<open>
  \<^verbatim>\<open>static int pickObjectId(const Ray& r)\<close>: \<^verbatim>\<open>closestId = -1\<close> and
  \<^verbatim>\<open>closestT = std::numeric_limits<float>::max()\<close> before the loop.
\<close>

definition pickObjectId :: "Ray \<Rightarrow> int" where
  "pickObjectId r = pickLoop r objects (-1) FLT_MAX"

section \<open>The slab loop, step by step\<close>

text \<open>The equations that evaluate the intersector on a concrete ray and box.\<close>

lemmas slab_eval = rayAabbSlab_def slabFinish_def inside_def slabLoop.simps slabInterval_def vec3_at_def
  vec3_def EPS_def FLT_MAX_def box_ok_def Let_def

lemma EPS_pos: "0 < EPS"
  by (simp add: EPS_def)

lemma FLT_MAX_pos: "0 < FLT_MAX"
  by (simp add: FLT_MAX_def)

lemma inside_axis:
  assumes "inside r box" and "axis < 3"
  shows "vec3_at (min_corner box) axis \<le> vec3_at (origin r) axis
       \<and> vec3_at (origin r) axis \<le> vec3_at (max_corner box) axis"
  using assms by (auto simp: inside_def vec3_at_def)

lemma inside_iff_axes:
  "inside r box \<longleftrightarrow> (\<forall>axis<3. vec3_at (min_corner box) axis \<le> vec3_at (origin r) axis
       \<and> vec3_at (origin r) axis \<le> vec3_at (max_corner box) axis)"
proof
  assume "inside r box"
  then show "\<forall>axis<3. vec3_at (min_corner box) axis \<le> vec3_at (origin r) axis
       \<and> vec3_at (origin r) axis \<le> vec3_at (max_corner box) axis"
    using inside_axis by blast
next
  assume h: "\<forall>axis<3. vec3_at (min_corner box) axis \<le> vec3_at (origin r) axis
       \<and> vec3_at (origin r) axis \<le> vec3_at (max_corner box) axis"
  have "(0::nat) < 3" "(1::nat) < 3" "(2::nat) < 3" by simp_all
  with h have "vec3_at (min_corner box) 0 \<le> vec3_at (origin r) 0 \<and> vec3_at (origin r) 0 \<le> vec3_at (max_corner box) 0"
    "vec3_at (min_corner box) 1 \<le> vec3_at (origin r) 1 \<and> vec3_at (origin r) 1 \<le> vec3_at (max_corner box) 1"
    "vec3_at (min_corner box) 2 \<le> vec3_at (origin r) 2 \<and> vec3_at (origin r) 2 \<le> vec3_at (max_corner box) 2"
    by blast+
  then show "inside r box"
    by (simp add: inside_def vec3_at_def)
qed

text \<open>One equation for each way through the loop body.\<close>

lemma slabLoop_end: "\<not> axis < 3 \<Longrightarrow> slabLoop r box axis tMin tMax = Some (tMin, tMax)"
  by (simp add: slabLoop.simps)

lemma slabLoop_parallel:
  "axis < 3 \<Longrightarrow> \<bar>vec3_at (dir r) axis\<bar> < EPS \<Longrightarrow>
   slabLoop r box axis tMin tMax =
     (if vec3_at (origin r) axis < vec3_at (min_corner box) axis
         \<or> vec3_at (origin r) axis > vec3_at (max_corner box) axis
      then None else slabLoop r box (axis + 1) tMin tMax)"
  by (simp add: slabLoop.simps [of r box axis])

lemma slabLoop_slab:
  "axis < 3 \<Longrightarrow> \<not> \<bar>vec3_at (dir r) axis\<bar> < EPS \<Longrightarrow>
   slabLoop r box axis tMin tMax =
     (if max tMin (fst (slabInterval r box axis)) > min tMax (snd (slabInterval r box axis))
      then None
      else slabLoop r box (axis + 1) (max tMin (fst (slabInterval r box axis)))
             (min tMax (snd (slabInterval r box axis))))"
  by (simp add: slabLoop.simps [of r box axis] Let_def max_def min_def split: prod.splits)

text \<open>Induction along the loop, from \<open>axis\<close> upwards.\<close>

lemma slabLoop_induct [case_names finished parallel slab]:
  assumes "\<And>axis tMin tMax. \<not> axis < 3 \<Longrightarrow> P axis tMin tMax"
    and "\<And>axis tMin tMax. axis < 3 \<Longrightarrow> \<bar>vec3_at (dir r) axis\<bar> < EPS \<Longrightarrow>
           P (axis + 1) tMin tMax \<Longrightarrow> P axis tMin tMax"
    and "\<And>axis tMin tMax. axis < 3 \<Longrightarrow> \<not> \<bar>vec3_at (dir r) axis\<bar> < EPS \<Longrightarrow>
           P (axis + 1) (max tMin (fst (slabInterval r box axis)))
             (min tMax (snd (slabInterval r box axis))) \<Longrightarrow> P axis tMin tMax"
  shows "P axis tMin tMax"
proof (induction "3 - axis" arbitrary: axis tMin tMax)
  case 0
  then show ?case using assms(1) by simp
next
  case (Suc n)
  then have ax: "axis < 3" and n: "n = 3 - (axis + 1)" by simp_all
  show ?case
  proof (cases "\<bar>vec3_at (dir r) axis\<bar> < EPS")
    case True
    with ax Suc.hyps(1) [OF n] show ?thesis using assms(2) by blast
  next
    case False
    with ax Suc.hyps(1) [OF n] show ?thesis using assms(3) by blast
  qed
qed

text \<open>The loop only raises \<open>tMin\<close> and only lowers \<open>tMax\<close>, and keeps them ordered.\<close>

lemma slabLoop_bounds:
  "slabLoop r box axis tMin tMax = Some (a, b) \<Longrightarrow> tMin \<le> a \<and> b \<le> tMax"
proof (induction axis tMin tMax rule: slabLoop_induct [where r = r and box = box])
  case (finished axis tMin tMax)
  then show ?case by (simp add: slabLoop_end)
next
  case (parallel axis tMin tMax)
  then show ?case by (simp add: slabLoop_parallel split: if_splits)
next
  case (slab axis tMin tMax)
  from slab.prems slab.hyps
  have "slabLoop r box (axis + 1) (max tMin (fst (slabInterval r box axis)))
             (min tMax (snd (slabInterval r box axis))) = Some (a, b)"
    by (simp add: slabLoop_slab split: if_splits)
  from slab.IH [OF this] show ?case by simp
qed

lemma slabLoop_ordered:
  "slabLoop r box axis tMin tMax = Some (a, b) \<Longrightarrow> tMin \<le> tMax \<Longrightarrow> a \<le> b"
proof (induction axis tMin tMax rule: slabLoop_induct [where r = r and box = box])
  case (finished axis tMin tMax)
  then show ?case by (simp add: slabLoop_end)
next
  case (parallel axis tMin tMax)
  then show ?case by (simp add: slabLoop_parallel split: if_splits)
next
  case (slab axis tMin tMax)
  from slab.prems(1) slab.hyps
  have ne: "\<not> max tMin (fst (slabInterval r box axis)) > min tMax (snd (slabInterval r box axis))"
    and rec: "slabLoop r box (axis + 1) (max tMin (fst (slabInterval r box axis)))
             (min tMax (snd (slabInterval r box axis))) = Some (a, b)"
    by (simp_all add: slabLoop_slab split: if_splits)
  from ne have "max tMin (fst (slabInterval r box axis)) \<le> min tMax (snd (slabInterval r box axis))"
    by (simp only: not_less)
  with slab.IH [OF rec] show ?case .
qed

lemma slabLoop_parallel_outside:
  "axis \<le> k \<Longrightarrow> k < 3 \<Longrightarrow> \<bar>vec3_at (dir r) k\<bar> < EPS \<Longrightarrow>
   vec3_at (origin r) k < vec3_at (min_corner box) k
     \<or> vec3_at (origin r) k > vec3_at (max_corner box) k \<Longrightarrow>
   slabLoop r box axis tMin tMax = None"
proof (induction axis tMin tMax rule: slabLoop_induct [where r = r and box = box])
  case (finished axis tMin tMax)
  then show ?case by simp
next
  case (parallel axis tMin tMax)
  show ?case
  proof (cases "axis = k")
    case True
    with parallel.prems parallel.hyps show ?thesis by (simp add: slabLoop_parallel)
  next
    case False
    with parallel.prems have "axis + 1 \<le> k" by simp
    from parallel.IH [OF this parallel.prems(2,3,4)] parallel.hyps
    show ?thesis by (simp add: slabLoop_parallel)
  qed
next
  case (slab axis tMin tMax)
  from slab.prems slab.hyps have "axis \<noteq> k" by auto
  with slab.prems have "axis + 1 \<le> k" by simp
  from slab.IH [OF this slab.prems(2,3,4)] slab.hyps
  show ?case by (simp add: slabLoop_slab)
qed

text \<open>
  The loop is entered with \<open>tMin = 0\<close> and only raises it, so when it runs to its end
  the code after it returns \<open>tMin\<close>.
\<close>

lemma rayAabbSlab_loop:
  "\<not> inside r box \<Longrightarrow>
   rayAabbSlab r box = (case slabLoop r box 0 0 FLT_MAX of None \<Rightarrow> None | Some (tMin, tMax) \<Rightarrow> Some tMin)"
proof (cases "slabLoop r box 0 0 FLT_MAX")
  case None
  moreover assume "\<not> inside r box"
  ultimately show ?thesis by (simp add: rayAabbSlab_def slabFinish_def)
next
  case (Some p)
  obtain tMin tMax where p: "p = (tMin, tMax)" by (cases p)
  assume ni: "\<not> inside r box"
  from Some p slabLoop_bounds [of r box 0 0 FLT_MAX tMin tMax] have "0 \<le> tMin" by simp
  with Some p ni show ?thesis by (simp add: rayAabbSlab_def slabFinish_def)
qed

lemma rayAabbSlab_nonneg: "rayAabbSlab r box = Some t \<Longrightarrow> 0 \<le> t"
proof (cases "inside r box")
  case True
  moreover assume "rayAabbSlab r box = Some t"
  ultimately show ?thesis by (simp add: rayAabbSlab_def slabFinish_def)
next
  case False
  moreover assume "rayAabbSlab r box = Some t"
  ultimately obtain b where "slabLoop r box 0 0 FLT_MAX = Some (t, b)"
    by (auto simp: rayAabbSlab_loop split: option.splits)
  from slabLoop_bounds [OF this] show ?thesis by simp
qed

lemma rayAabbSlab_le_FLT_MAX: "rayAabbSlab r box = Some t \<Longrightarrow> t \<le> FLT_MAX"
proof (cases "inside r box")
  case True
  moreover assume "rayAabbSlab r box = Some t"
  ultimately show ?thesis using FLT_MAX_pos by (simp add: rayAabbSlab_def slabFinish_def)
next
  case False
  moreover assume "rayAabbSlab r box = Some t"
  ultimately obtain b where l: "slabLoop r box 0 0 FLT_MAX = Some (t, b)"
    by (auto simp: rayAabbSlab_loop split: option.splits)
  from slabLoop_ordered [OF l] FLT_MAX_pos slabLoop_bounds [OF l] show ?thesis by simp
qed

text \<open>
  The two sample rays of the source against the box of object 0: the first hits at
  \<^verbatim>\<open>tNear = 1\<close>, the second misses.
\<close>

lemma scenario_hit:
  "rayAabbSlab \<lparr>origin = vec3 0 1 (-2), dir = vec3 0 0 1\<rparr>
        \<lparr>min_corner = vec3 (-1) 0 (-1), max_corner = vec3 1 2 1\<rparr> = Some 1"
  by (simp add: slab_eval)

lemma scenario_miss:
  "rayAabbSlab \<lparr>origin = vec3 10 10 10, dir = vec3 1 0 0\<rparr>
        \<lparr>min_corner = vec3 (-1) 0 (-1), max_corner = vec3 1 2 1\<rparr> = None"
  by (simp add: slab_eval)

section \<open>The intersector: origin inside, sign of \<open>tNear\<close>, parallel rays\<close>

text \<open>
  Claim C3. For every box with \<open>min \<le> max\<close> on every axis and every ray whose origin
  lies in the box on all three axes, \<^verbatim>\<open>rayAabbSlab\<close> returns \<^verbatim>\<open>true\<close> with
  \<^verbatim>\<open>tNear = 0\<close>.
\<close>

theorem inside_hit_at_zero:
  "box_ok box \<Longrightarrow> inside r box \<Longrightarrow> rayAabbSlab r box = Some 0"
  by (simp add: rayAabbSlab_def slabFinish_def)

theorem inside_hit_at_zero_witness:
  "box_ok \<lparr>min_corner = vec3 (-1) 0 (-1), max_corner = vec3 1 2 1\<rparr>
   \<and> inside \<lparr>origin = vec3 0 1 0, dir = vec3 0 0 1\<rparr>
        \<lparr>min_corner = vec3 (-1) 0 (-1), max_corner = vec3 1 2 1\<rparr>
   \<and> rayAabbSlab \<lparr>origin = vec3 0 1 0, dir = vec3 0 0 1\<rparr>
        \<lparr>min_corner = vec3 (-1) 0 (-1), max_corner = vec3 1 2 1\<rparr> = Some 0"
proof -
  let ?box = "\<lparr>min_corner = vec3 (-1) 0 (-1), max_corner = vec3 1 2 1\<rparr>"
  let ?r = "\<lparr>origin = vec3 0 1 0, dir = vec3 0 0 1\<rparr>"
  have b: "box_ok ?box" by (simp add: box_ok_def vec3_def)
  have i: "inside ?r ?box" by (simp add: inside_def vec3_def)
  from inside_hit_at_zero [OF b i] b i show ?thesis by simp
qed

text \<open>
  Claim C5. For every ray and every box with \<open>min \<le> max\<close>, whenever \<^verbatim>\<open>rayAabbSlab\<close>
  returns \<^verbatim>\<open>true\<close>, the \<^verbatim>\<open>tNear\<close> it reports is at least 0.
\<close>

theorem hit_tNear_nonneg:
  assumes "box_ok box" and "rayAabbSlab r box = Some tNear"
  shows "0 \<le> tNear"
proof (cases "inside r box")
  case True
  with assms(2) show ?thesis by (simp add: rayAabbSlab_def slabFinish_def)
next
  case False
  with assms(2) obtain tMin tMax where
    l: "slabLoop r box 0 0 FLT_MAX = Some (tMin, tMax)"
    and t: "tNear = (if tMin \<ge> 0 then tMin else tMax)" "tMin \<ge> 0 \<or> tMax \<ge> 0"
    by (auto simp: rayAabbSlab_def slabFinish_def split: option.splits if_splits)
  from slabLoop_bounds [OF l] have "0 \<le> tMin" by simp
  with t show ?thesis by simp
qed

theorem hit_tNear_nonneg_witness:
  "box_ok \<lparr>min_corner = vec3 (-1) 0 (-1), max_corner = vec3 1 2 1\<rparr>
   \<and> rayAabbSlab \<lparr>origin = vec3 0 1 (-2), dir = vec3 0 0 1\<rparr>
        \<lparr>min_corner = vec3 (-1) 0 (-1), max_corner = vec3 1 2 1\<rparr> = Some 1
   \<and> (0::real) \<le> 1"
proof -
  let ?box = "\<lparr>min_corner = vec3 (-1) 0 (-1), max_corner = vec3 1 2 1\<rparr>"
  let ?r = "\<lparr>origin = vec3 0 1 (-2), dir = vec3 0 0 1\<rparr>"
  have b: "box_ok ?box" by (simp add: box_ok_def vec3_def)
  have h: "rayAabbSlab ?r ?box = Some 1" by (simp add: slab_eval)
  from hit_tNear_nonneg [OF b h] b h show ?thesis by simp
qed

text \<open>
  Claim C6. For every box and every ray whose direction component on some axis has
  magnitude below \<open>EPS\<close> while the origin's coordinate on that axis lies outside
  \<open>[min, max]\<close> of the box, \<^verbatim>\<open>rayAabbSlab\<close> returns \<^verbatim>\<open>false\<close>, whatever the other
  axes are.
\<close>

theorem parallel_outside_miss:
  assumes "axis < 3" and "\<bar>vec3_at (dir r) axis\<bar> < EPS"
    and "vec3_at (origin r) axis < vec3_at (min_corner box) axis
         \<or> vec3_at (origin r) axis > vec3_at (max_corner box) axis"
  shows "rayAabbSlab r box = None"
proof -
  from assms(1,3) have "\<not> inside r box"
    using inside_axis [of r box axis] by auto
  moreover from assms have "slabLoop r box 0 0 FLT_MAX = None"
    by (intro slabLoop_parallel_outside [of 0 axis]) simp_all
  ultimately show ?thesis by (simp add: rayAabbSlab_def slabFinish_def)
qed

theorem parallel_outside_miss_witness:
  "(1::nat) < 3
   \<and> \<bar>vec3_at (dir \<lparr>origin = vec3 0 10 (-2), dir = vec3 0 0 1\<rparr>) 1\<bar> < EPS
   \<and> vec3_at (origin \<lparr>origin = vec3 0 10 (-2), dir = vec3 0 0 1\<rparr>) 1
       > vec3_at (max_corner \<lparr>min_corner = vec3 (-1) 0 (-1), max_corner = vec3 1 2 1\<rparr>) 1
   \<and> rayAabbSlab \<lparr>origin = vec3 0 10 (-2), dir = vec3 0 0 1\<rparr>
        \<lparr>min_corner = vec3 (-1) 0 (-1), max_corner = vec3 1 2 1\<rparr> = None"
proof -
  let ?box = "\<lparr>min_corner = vec3 (-1) 0 (-1), max_corner = vec3 1 2 1\<rparr>"
  let ?r = "\<lparr>origin = vec3 0 10 (-2), dir = vec3 0 0 1\<rparr>"
  have a: "(1::nat) < 3" by simp
  have p: "\<bar>vec3_at (dir ?r) 1\<bar> < EPS" by (simp add: vec3_at_def vec3_def EPS_def)
  have out: "vec3_at (origin ?r) 1 > vec3_at (max_corner ?box) 1"
    by (simp add: vec3_at_def vec3_def)
  then have o: "vec3_at (origin ?r) 1 < vec3_at (min_corner ?box) 1
         \<or> vec3_at (origin ?r) 1 > vec3_at (max_corner ?box) 1" ..
  from parallel_outside_miss [OF a p o] a p out show ?thesis by simp
qed

section \<open>The code after the loop\<close>

lemma slabInterval_inside:
  assumes "vec3_at (min_corner box) axis \<le> vec3_at (origin r) axis"
    and "vec3_at (origin r) axis \<le> vec3_at (max_corner box) axis"
  shows "fst (slabInterval r box axis) \<le> 0 \<and> 0 \<le> snd (slabInterval r box axis)"
  using assms
  by (simp add: slabInterval_def Let_def divide_le_0_iff zero_le_divide_iff)

lemma slabLoop_exit_behind:
  "axis \<le> k \<Longrightarrow> k < 3 \<Longrightarrow> \<not> \<bar>vec3_at (dir r) k\<bar> < EPS \<Longrightarrow>
   snd (slabInterval r box k) < tMin \<Longrightarrow> slabLoop r box axis tMin tMax = None"
proof (induction axis tMin tMax rule: slabLoop_induct [where r = r and box = box])
  case (finished axis tMin tMax)
  then show ?case by simp
next
  case (parallel axis tMin tMax)
  from parallel.prems parallel.hyps have "axis \<noteq> k" by auto
  with parallel.prems have "axis + 1 \<le> k" by simp
  from parallel.IH [OF this parallel.prems(2,3,4)] parallel.hyps
  show ?case by (simp add: slabLoop_parallel)
next
  case (slab axis tMin tMax)
  show ?case
  proof (cases "axis = k")
    case True
    with slab.prems(4)
    have "min tMax (snd (slabInterval r box axis)) < max tMin (fst (slabInterval r box axis))"
      by simp
    with slab.hyps show ?thesis by (simp add: slabLoop_slab)
  next
    case False
    with slab.prems have le: "axis + 1 \<le> k" by simp
    from slab.prems(4)
    have "snd (slabInterval r box k) < max tMin (fst (slabInterval r box axis))" by simp
    from slab.IH [OF le slab.prems(2,3) this] slab.hyps
    show ?thesis by (simp add: slabLoop_slab)
  qed
qed

text \<open>A slab that the ray leaves behind its origin is a miss.\<close>

lemma exit_behind_miss:
  assumes "axis < 3" and "\<not> \<bar>vec3_at (dir r) axis\<bar> < EPS"
    and "snd (slabInterval r box axis) < 0"
  shows "rayAabbSlab r box = None"
proof -
  have "\<not> inside r box"
  proof
    assume "inside r box"
    from inside_axis [OF this assms(1)] assms(3) slabInterval_inside [of box axis r]
    show False by simp
  qed
  moreover from assms have "slabLoop r box 0 0 FLT_MAX = None"
    by (intro slabLoop_exit_behind [of 0 axis]) simp_all
  ultimately show ?thesis by (simp add: rayAabbSlab_def)
qed



section \<open>Enlarging the box\<close>

lemma encloses_axis:
  "encloses box' box \<Longrightarrow>
     vec3_at (min_corner box') axis \<le> vec3_at (min_corner box) axis
     \<and> vec3_at (max_corner box) axis \<le> vec3_at (max_corner box') axis"
  by (simp add: encloses_def vec3_at_def)

lemma slabInterval_mono:
  assumes "encloses box' box"
  shows "fst (slabInterval r box' axis) \<le> fst (slabInterval r box axis)
       \<and> snd (slabInterval r box axis) \<le> snd (slabInterval r box' axis)"
proof -
  from encloses_axis [OF assms, of axis]
  have mn: "vec3_at (min_corner box') axis \<le> vec3_at (min_corner box) axis"
    and mx: "vec3_at (max_corner box) axis \<le> vec3_at (max_corner box') axis" by simp_all
  show ?thesis
  proof (cases "1 / vec3_at (dir r) axis < 0")
    case True
    with mn mx show ?thesis
      by (simp add: slabInterval_def Let_def divide_le_cancel)
  next
    case False
    then have "0 \<le> 1 / vec3_at (dir r) axis" by simp
    with mn mx False show ?thesis
      by (simp add: slabInterval_def Let_def divide_le_cancel)
  qed
qed

lemma slabLoop_mono:
  assumes enc: "encloses box' box"
  shows "slabLoop r box axis tMin tMax = Some (a, b) \<Longrightarrow> tMin' \<le> tMin \<Longrightarrow> tMax \<le> tMax' \<Longrightarrow>
         \<exists>a' b'. slabLoop r box' axis tMin' tMax' = Some (a', b') \<and> a' \<le> a \<and> b \<le> b'"
proof (induction axis tMin tMax arbitrary: tMin' tMax' rule: slabLoop_induct [where r = r and box = box])
  case (finished axis tMin tMax)
  then show ?case by (simp add: slabLoop_end)
next
  case (parallel axis tMin tMax)
  from parallel.prems(1) parallel.hyps
  have inr: "\<not> (vec3_at (origin r) axis < vec3_at (min_corner box) axis
         \<or> vec3_at (origin r) axis > vec3_at (max_corner box) axis)"
    and rec: "slabLoop r box (axis + 1) tMin tMax = Some (a, b)"
    by (simp_all add: slabLoop_parallel split: if_splits)
  from inr encloses_axis [OF enc, of axis]
  have inr': "\<not> (vec3_at (origin r) axis < vec3_at (min_corner box') axis
         \<or> vec3_at (origin r) axis > vec3_at (max_corner box') axis)" by linarith
  from parallel.IH [OF rec parallel.prems(2,3)] inr' parallel.hyps
  show ?case by (simp add: slabLoop_parallel)
next
  case (slab axis tMin tMax)
  let ?t0 = "fst (slabInterval r box axis)" and ?t1 = "snd (slabInterval r box axis)"
  let ?t0' = "fst (slabInterval r box' axis)" and ?t1' = "snd (slabInterval r box' axis)"
  from slab.prems(1) slab.hyps
  have ne: "max tMin ?t0 \<le> min tMax ?t1"
    and rec: "slabLoop r box (axis + 1) (max tMin ?t0) (min tMax ?t1) = Some (a, b)"
    by (simp_all add: slabLoop_slab not_less split: if_splits)
  from slabInterval_mono [OF enc, of r axis] slab.prems(2,3)
  have lo: "max tMin' ?t0' \<le> max tMin ?t0" and hi: "min tMax ?t1 \<le> min tMax' ?t1'"
    by (auto simp: max_def min_def)
  from lo ne hi have ne': "\<not> max tMin' ?t0' > min tMax' ?t1'" by linarith
  from slab.IH [OF rec lo hi] ne' slab.hyps
  show ?case by (simp add: slabLoop_slab)
qed

lemma inside_encloses: "encloses box' box \<Longrightarrow> inside r box \<Longrightarrow> inside r box'"
  by (auto simp: encloses_def inside_def)

text \<open>
  Claim C7. For every ray and boxes \<open>box\<close> and \<open>box'\<close>, each with \<open>min \<le> max\<close>, where
  \<open>box'\<close> encloses \<open>box\<close>: if \<^verbatim>\<open>rayAabbSlab\<close> reports a hit on \<open>box\<close>, it reports a
  hit on \<open>box'\<close> too.
\<close>

theorem enlarging_box_keeps_hit:
  assumes "box_ok box" and "box_ok box'" and "encloses box' box"
    and "rayAabbSlab r box = Some tNear"
  shows "\<exists>tNear'. rayAabbSlab r box' = Some tNear'"
proof (cases "inside r box'")
  case True
  then show ?thesis by (simp add: rayAabbSlab_def slabFinish_def)
next
  case ni': False
  with assms(3) have ni: "\<not> inside r box" using inside_encloses by blast
  with assms(4) obtain a b where l: "slabLoop r box 0 0 FLT_MAX = Some (a, b)"
    by (auto simp: rayAabbSlab_loop split: option.splits)
  from slabLoop_mono [OF assms(3) l order_refl order_refl]
  obtain a' b' where "slabLoop r box' 0 0 FLT_MAX = Some (a', b')" by blast
  with ni' show ?thesis by (simp add: rayAabbSlab_loop)
qed

theorem enlarging_box_keeps_hit_witness:
  "box_ok \<lparr>min_corner = vec3 (-1) 0 (-1), max_corner = vec3 1 2 1\<rparr>
   \<and> box_ok \<lparr>min_corner = vec3 (-2) (-1) (-1.5), max_corner = vec3 2 3 2\<rparr>
   \<and> encloses \<lparr>min_corner = vec3 (-2) (-1) (-1.5), max_corner = vec3 2 3 2\<rparr>
        \<lparr>min_corner = vec3 (-1) 0 (-1), max_corner = vec3 1 2 1\<rparr>
   \<and> rayAabbSlab \<lparr>origin = vec3 0 1 (-2), dir = vec3 0 0 1\<rparr>
        \<lparr>min_corner = vec3 (-1) 0 (-1), max_corner = vec3 1 2 1\<rparr> = Some 1
   \<and> rayAabbSlab \<lparr>origin = vec3 0 1 (-2), dir = vec3 0 0 1\<rparr>
        \<lparr>min_corner = vec3 (-2) (-1) (-1.5), max_corner = vec3 2 3 2\<rparr> \<noteq> None"
proof -
  let ?box = "\<lparr>min_corner = vec3 (-1) 0 (-1), max_corner = vec3 1 2 1\<rparr>"
  let ?box' = "\<lparr>min_corner = vec3 (-2) (-1) (-1.5), max_corner = vec3 2 3 2\<rparr>"
  let ?r = "\<lparr>origin = vec3 0 1 (-2), dir = vec3 0 0 1\<rparr>"
  have b: "box_ok ?box" and b': "box_ok ?box'" by (simp_all add: box_ok_def vec3_def)
  have e: "encloses ?box' ?box" by (simp add: encloses_def vec3_def)
  have h: "rayAabbSlab ?r ?box = Some 1" by (simp add: slab_eval)
  from enlarging_box_keeps_hit [OF b b' e h] b b' e h show ?thesis by auto
qed

section \<open>The divisions performed\<close>

lemma slabLoop_divs_end:
  "\<not> axis < 3 \<Longrightarrow> slabLoop_divs r box axis tMin tMax ds = (Some (tMin, tMax), ds)"
  by (simp add: slabLoop_divs.simps)

lemma slabLoop_divs_parallel:
  "axis < 3 \<Longrightarrow> \<bar>vec3_at (dir r) axis\<bar> < EPS \<Longrightarrow>
   slabLoop_divs r box axis tMin tMax ds =
     (if vec3_at (origin r) axis < vec3_at (min_corner box) axis
         \<or> vec3_at (origin r) axis > vec3_at (max_corner box) axis
      then (None, ds) else slabLoop_divs r box (axis + 1) tMin tMax ds)"
  by (simp add: slabLoop_divs.simps [of r box axis])

lemma slabLoop_divs_slab:
  "axis < 3 \<Longrightarrow> \<not> \<bar>vec3_at (dir r) axis\<bar> < EPS \<Longrightarrow>
   slabLoop_divs r box axis tMin tMax ds =
     (if max tMin (fst (slabInterval r box axis)) > min tMax (snd (slabInterval r box axis))
      then (None, ds @ [vec3_at (dir r) axis])
      else slabLoop_divs r box (axis + 1) (max tMin (fst (slabInterval r box axis)))
             (min tMax (snd (slabInterval r box axis))) (ds @ [vec3_at (dir r) axis]))"
  by (simp add: slabLoop_divs.simps [of r box axis] Let_def max_def min_def split: prod.splits)

lemma slabLoop_divs_fst:
  "fst (slabLoop_divs r box axis tMin tMax ds) = slabLoop r box axis tMin tMax"
proof (induction axis tMin tMax arbitrary: ds rule: slabLoop_induct [where r = r and box = box])
  case (finished axis tMin tMax)
  then show ?case by (simp add: slabLoop_end slabLoop_divs_end)
next
  case (parallel axis tMin tMax)
  then show ?case by (simp add: slabLoop_parallel slabLoop_divs_parallel)
next
  case (slab axis tMin tMax)
  then show ?case by (simp add: slabLoop_slab slabLoop_divs_slab)
qed

lemma slabLoop_divs_guarded:
  "\<forall>d \<in> set ds. EPS \<le> \<bar>d\<bar> \<Longrightarrow>
   \<forall>d \<in> set (snd (slabLoop_divs r box axis tMin tMax ds)). EPS \<le> \<bar>d\<bar>"
proof (induction axis tMin tMax arbitrary: ds rule: slabLoop_induct [where r = r and box = box])
  case (finished axis tMin tMax)
  then show ?case by (simp add: slabLoop_divs_end)
next
  case (parallel axis tMin tMax)
  then show ?case by (simp add: slabLoop_divs_parallel)
next
  case (slab axis tMin tMax)
  from slab.hyps slab.prems
  have "\<forall>d \<in> set (ds @ [vec3_at (dir r) axis]). EPS \<le> \<bar>d\<bar>" by simp
  from slab.IH [OF this] this slab.hyps show ?case
    by (simp add: slabLoop_divs_slab)
qed

lemma slabLoop_divs_all_parallel:
  "\<forall>k<3. \<bar>vec3_at (dir r) k\<bar> < EPS \<Longrightarrow>
   snd (slabLoop_divs r box axis tMin tMax ds) = ds"
proof (induction axis tMin tMax arbitrary: ds rule: slabLoop_induct [where r = r and box = box])
  case (finished axis tMin tMax)
  then show ?case by (simp add: slabLoop_divs_end)
next
  case (parallel axis tMin tMax)
  then show ?case by (simp add: slabLoop_divs_parallel)
next
  case (slab axis tMin tMax)
  then show ?case by blast
qed

lemma slabLoop_all_parallel:
  assumes "\<forall>k<3. \<bar>vec3_at (dir r) k\<bar> < EPS" and "\<not> inside r box"
  shows "slabLoop r box 0 tMin tMax = None"
proof -
  from assms(2) obtain k where k: "k < 3"
    and out: "vec3_at (origin r) k < vec3_at (min_corner box) k
              \<or> vec3_at (origin r) k > vec3_at (max_corner box) k"
    by (auto simp: inside_iff_axes not_le)
  from assms(1) k have "\<bar>vec3_at (dir r) k\<bar> < EPS" by blast
  from slabLoop_parallel_outside [OF _ k this out] show ?thesis by simp
qed

lemma rayAabbSlab_divs_fst: "fst (rayAabbSlab_divs r box) = rayAabbSlab r box"
proof -
  have "fst (slabLoop_divs r box 0 0 FLT_MAX []) = slabLoop r box 0 0 FLT_MAX"
    by (rule slabLoop_divs_fst)
  then show ?thesis
    by (cases "slabLoop_divs r box 0 0 FLT_MAX []")
       (auto simp: rayAabbSlab_divs_def rayAabbSlab_def slabFinish_def split: option.splits)
qed

lemma rayAabbSlab_divs_snd:
  "snd (rayAabbSlab_divs r box) = (if inside r box then [] else snd (slabLoop_divs r box 0 0 FLT_MAX []))"
  by (cases "slabLoop_divs r box 0 0 FLT_MAX []")
     (auto simp: rayAabbSlab_divs_def slabFinish_def split: option.splits)

text \<open>
  At the boundary: a direction component equal to \<^verbatim>\<open>1e-6f\<close> is not below \<open>EPS\<close>, so
  the axis is not treated as parallel and the division is performed.
\<close>

lemma divides_at_EPS:
  "rayAabbSlab_divs \<lparr>origin = vec3 (-2) 1 (-2000000), dir = vec3 EPS 0 1\<rparr>
        \<lparr>min_corner = vec3 (-1) 0 (-1), max_corner = vec3 1 2 1\<rparr>
     = (Some 1999999, [EPS, 1])"
  by (simp add: rayAabbSlab_divs_def slabLoop_divs.simps slab_eval)

text \<open>
  Claim C10. \<^verbatim>\<open>rayAabbSlab\<close> returns on every input (the loop is a total function),
  and every division \<^verbatim>\<open>1.0f / r.dir[axis]\<close> it performs has a divisor of magnitude
  at least \<open>EPS\<close>. For a ray whose direction is the zero vector it performs no
  division, and it returns \<^verbatim>\<open>true\<close> with \<^verbatim>\<open>tNear = 0\<close> exactly when the origin lies
  in the box on every axis, and \<^verbatim>\<open>false\<close> otherwise.
\<close>

theorem divisions_guarded:
  "fst (rayAabbSlab_divs r box) = rayAabbSlab r box
   \<and> (\<forall>d \<in> set (snd (rayAabbSlab_divs r box)). EPS \<le> \<bar>d\<bar>)
   \<and> (dir r = vec3 0 0 0 \<longrightarrow>
        rayAabbSlab_divs r box = (if inside r box then Some 0 else None, []))"
proof (intro conjI impI)
  show "fst (rayAabbSlab_divs r box) = rayAabbSlab r box"
    by (rule rayAabbSlab_divs_fst)
next
  have "\<forall>d \<in> set (snd (slabLoop_divs r box 0 0 FLT_MAX [])). EPS \<le> \<bar>d\<bar>"
    by (rule slabLoop_divs_guarded) simp
  then show "\<forall>d \<in> set (snd (rayAabbSlab_divs r box)). EPS \<le> \<bar>d\<bar>"
    by (simp add: rayAabbSlab_divs_snd)
next
  assume z: "dir r = vec3 0 0 0"
  then have par: "\<forall>k<3. \<bar>vec3_at (dir r) k\<bar> < EPS"
    by (simp add: vec3_def vec3_at_def EPS_def)
  show "rayAabbSlab_divs r box = (if inside r box then Some 0 else None, [])"
  proof (cases "inside r box")
    case True
    then show ?thesis by (simp add: rayAabbSlab_divs_def slabFinish_def)
  next
    case False
    from slabLoop_all_parallel [OF par False]
    have "slabLoop r box 0 0 FLT_MAX = None" .
    with False have "rayAabbSlab r box = None" by (simp add: rayAabbSlab_def slabFinish_def)
    then have "fst (rayAabbSlab_divs r box) = None" by (simp add: rayAabbSlab_divs_fst)
    moreover from False slabLoop_divs_all_parallel [OF par]
    have "snd (rayAabbSlab_divs r box) = []" by (simp add: rayAabbSlab_divs_snd)
    ultimately show ?thesis using False by (simp add: prod_eq_iff)
  qed
qed

theorem divisions_guarded_witness:
  "rayAabbSlab_divs \<lparr>origin = vec3 0 1 (-2), dir = vec3 0 0 1\<rparr>
        \<lparr>min_corner = vec3 (-1) 0 (-1), max_corner = vec3 1 2 1\<rparr> = (Some 1, [1])
   \<and> EPS \<le> \<bar>1\<bar>
   \<and> dir \<lparr>origin = vec3 0 1 0, dir = vec3 0 0 0\<rparr> = vec3 0 0 0
   \<and> inside \<lparr>origin = vec3 0 1 0, dir = vec3 0 0 0\<rparr>
        \<lparr>min_corner = vec3 (-1) 0 (-1), max_corner = vec3 1 2 1\<rparr>
   \<and> rayAabbSlab_divs \<lparr>origin = vec3 0 1 0, dir = vec3 0 0 0\<rparr>
        \<lparr>min_corner = vec3 (-1) 0 (-1), max_corner = vec3 1 2 1\<rparr> = (Some 0, [])
   \<and> dir \<lparr>origin = vec3 0 1 (-2), dir = vec3 0 0 0\<rparr> = vec3 0 0 0
   \<and> \<not> inside \<lparr>origin = vec3 0 1 (-2), dir = vec3 0 0 0\<rparr>
        \<lparr>min_corner = vec3 (-1) 0 (-1), max_corner = vec3 1 2 1\<rparr>
   \<and> rayAabbSlab_divs \<lparr>origin = vec3 0 1 (-2), dir = vec3 0 0 0\<rparr>
        \<lparr>min_corner = vec3 (-1) 0 (-1), max_corner = vec3 1 2 1\<rparr> = (None, [])"
proof -
  let ?box = "\<lparr>min_corner = vec3 (-1) 0 (-1), max_corner = vec3 1 2 1\<rparr>"
  let ?r = "\<lparr>origin = vec3 0 1 (-2), dir = vec3 0 0 1\<rparr>"
  let ?z = "\<lparr>origin = vec3 0 1 0, dir = vec3 0 0 0\<rparr>"
  let ?z' = "\<lparr>origin = vec3 0 1 (-2), dir = vec3 0 0 0\<rparr>"
  have d: "rayAabbSlab_divs ?r ?box = (Some 1, [1])"
    by (simp add: rayAabbSlab_divs_def slabFinish_def slabLoop_divs.simps slab_eval)
  have i: "inside ?z ?box" and i': "\<not> inside ?z' ?box" by (simp_all add: inside_def vec3_def)
  have z: "dir ?z = vec3 0 0 0" and z': "dir ?z' = vec3 0 0 0" by simp_all
  from divisions_guarded [of ?r ?box] d have "EPS \<le> \<bar>1\<bar>" by simp
  moreover from divisions_guarded [of ?z ?box] z i
  have "rayAabbSlab_divs ?z ?box = (Some 0, [])" by simp
  moreover from divisions_guarded [of ?z' ?box] z' i'
  have "rayAabbSlab_divs ?z' ?box = (None, [])" by simp
  ultimately show ?thesis using d i i' z z' by simp
qed

section \<open>The implemented variant against the plan variant\<close>

text \<open>The equations that evaluate the plan variant.\<close>

lemmas plan_eval = rayAabbSlab_plan_def planLoop.simps

lemma box_ok_axis: "box_ok box \<Longrightarrow> vec3_at (min_corner box) axis \<le> vec3_at (max_corner box) axis"
  by (simp add: box_ok_def vec3_at_def)

lemma planLoop_end: "\<not> i < 3 \<Longrightarrow> planLoop r box i tmin tmax = Some (tmin, tmax)"
  by (simp add: planLoop.simps)

lemma planLoop_parallel:
  "i < 3 \<Longrightarrow> \<bar>vec3_at (dir r) i\<bar> < EPS \<Longrightarrow>
   planLoop r box i tmin tmax =
     (if vec3_at (origin r) i < vec3_at (min_corner box) i
         \<or> vec3_at (origin r) i > vec3_at (max_corner box) i
      then None else planLoop r box (i + 1) tmin tmax)"
  by (simp add: planLoop.simps [of r box i] Let_def)

text \<open>On a box with \<open>min \<le> max\<close> both ways of ordering the two crossings agree.\<close>

lemma swap_agrees:
  fixes bmin bmax o_i inv :: real
  assumes "bmin \<le> bmax"
  shows "(if (bmin - o_i) * inv > (bmax - o_i) * inv
          then ((bmax - o_i) * inv, (bmin - o_i) * inv)
          else ((bmin - o_i) * inv, (bmax - o_i) * inv))
       = (if inv < 0 then ((bmax - o_i) * inv, (bmin - o_i) * inv)
          else ((bmin - o_i) * inv, (bmax - o_i) * inv))"
proof (cases "inv < 0")
  case True
  with assms have "(bmax - o_i) * inv \<le> (bmin - o_i) * inv"
    by (simp add: mult_right_mono_neg)
  with True show ?thesis by auto
next
  case False
  with assms have "(bmin - o_i) * inv \<le> (bmax - o_i) * inv"
    by (simp add: mult_right_mono)
  with False show ?thesis by auto
qed

lemma planLoop_slab:
  assumes "i < 3" and "\<not> \<bar>vec3_at (dir r) i\<bar> < EPS"
    and "vec3_at (min_corner box) i \<le> vec3_at (max_corner box) i"
  shows "planLoop r box i tmin tmax =
     (if gt_bound (max tmin (fst (slabInterval r box i)))
           (Finite (min_bound tmax (snd (slabInterval r box i))))
      then None
      else planLoop r box (i + 1) (max tmin (fst (slabInterval r box i)))
             (Finite (min_bound tmax (snd (slabInterval r box i)))))"
proof -
  let ?inv = "1 / vec3_at (dir r) i"
  let ?t1 = "(vec3_at (min_corner box) i - vec3_at (origin r) i) * ?inv"
  let ?t2 = "(vec3_at (max_corner box) i - vec3_at (origin r) i) * ?inv"
  have iv: "slabInterval r box i = (if ?t1 > ?t2 then (?t2, ?t1) else (?t1, ?t2))"
    unfolding slabInterval_def Let_def using swap_agrees [OF assms(3), of "vec3_at (origin r) i" ?inv]
    by simp
  have "planLoop r box i tmin tmax =
     (let t1s = (if ?t1 > ?t2 then ?t2 else ?t1);
          t2s = (if ?t1 > ?t2 then ?t1 else ?t2);
          tmin' = (if tmin < t1s then t1s else tmin);
          tmax' = Finite (min_bound tmax t2s)
      in if gt_bound tmin' tmax' then None else planLoop r box (i + 1) tmin' tmax')"
    using assms(1,2) by (subst planLoop.simps) (simp add: Let_def)
  also have "\<dots> = (if gt_bound (max tmin (fst (slabInterval r box i)))
           (Finite (min_bound tmax (snd (slabInterval r box i))))
      then None
      else planLoop r box (i + 1) (max tmin (fst (slabInterval r box i)))
             (Finite (min_bound tmax (snd (slabInterval r box i)))))"
    unfolding iv by (simp add: Let_def max_def)
  finally show ?thesis .
qed

lemma min_bound_FLT: "min_bound (Finite (min_bound tmax t)) m = min (min_bound tmax m) t"
  by (cases tmax) (auto simp: min_def)

lemma min_bound_le: "min_bound tmax m \<le> m"
  by (cases tmax) auto

lemma planLoop_induct [case_names finished parallel slab]:
  assumes "\<And>i tmin tmax. \<not> i < 3 \<Longrightarrow> P i tmin tmax"
    and "\<And>i tmin tmax. i < 3 \<Longrightarrow> \<bar>vec3_at (dir r) i\<bar> < EPS \<Longrightarrow>
           P (i + 1) tmin tmax \<Longrightarrow> P i tmin tmax"
    and "\<And>i tmin tmax. i < 3 \<Longrightarrow> \<not> \<bar>vec3_at (dir r) i\<bar> < EPS \<Longrightarrow>
           P (i + 1) (max tmin (fst (slabInterval r box i)))
             (Finite (min_bound tmax (snd (slabInterval r box i)))) \<Longrightarrow> P i tmin tmax"
  shows "P i tmin tmax"
proof (induction "3 - i" arbitrary: i tmin tmax)
  case 0
  then show ?case using assms(1) by simp
next
  case (Suc n)
  then have ax: "i < 3" and n: "n = 3 - (i + 1)" by simp_all
  show ?case
  proof (cases "\<bar>vec3_at (dir r) i\<bar> < EPS")
    case True
    with ax Suc.hyps(1) [OF n] show ?thesis using assms(2) by blast
  next
    case False
    with ax Suc.hyps(1) [OF n] show ?thesis using assms(3) by blast
  qed
qed

lemma planLoop_lower:
  assumes "box_ok box"
  shows "planLoop r box i tmin tmax = Some (a, bp) \<Longrightarrow> tmin \<le> a"
proof (induction i tmin tmax rule: planLoop_induct [where r = r and box = box])
  case (finished i tmin tmax)
  then show ?case by (simp add: planLoop_end)
next
  case (parallel i tmin tmax)
  from parallel.prems parallel.hyps
  have "planLoop r box (i + 1) tmin tmax = Some (a, bp)"
    by (simp add: planLoop_parallel split: if_splits)
  then show ?case by (rule parallel.IH)
next
  case (slab i tmin tmax)
  from slab.prems slab.hyps box_ok_axis [OF assms, of i]
  have "planLoop r box (i + 1) (max tmin (fst (slabInterval r box i)))
          (Finite (min_bound tmax (snd (slabInterval r box i)))) = Some (a, bp)"
    by (simp add: planLoop_slab split: if_splits)
  from slab.IH [OF this] show ?case by simp
qed

text \<open>
  The two loops in step: the implemented loop carries the plan's upper bound cut at
  \<open>FLT_MAX\<close>, and gives up as soon as the lower bound passes \<open>FLT_MAX\<close>.
\<close>

lemma slabLoop_plan:
  assumes ok: "box_ok box"
  shows "tmin \<le> min_bound tmax FLT_MAX \<Longrightarrow>
     slabLoop r box i tmin (min_bound tmax FLT_MAX) =
       (case planLoop r box i tmin tmax of
          None \<Rightarrow> None
        | Some (a, bp) \<Rightarrow> if a \<le> FLT_MAX then Some (a, min_bound bp FLT_MAX) else None)"
proof (induction i tmin tmax rule: planLoop_induct [where r = r and box = box])
  case (finished i tmin tmax)
  from finished.prems min_bound_le [of tmax FLT_MAX] have "tmin \<le> FLT_MAX" by linarith
  with finished.hyps show ?case by (simp add: planLoop_end slabLoop_end)
next
  case (parallel i tmin tmax)
  from parallel.IH [OF parallel.prems] parallel.hyps
  show ?case by (simp add: planLoop_parallel slabLoop_parallel)
next
  case (slab i tmin tmax)
  let ?t0 = "fst (slabInterval r box i)" and ?t1 = "snd (slabInterval r box i)"
  let ?lo = "max tmin ?t0"
  let ?hi = "min_bound tmax ?t1"
  have hi: "min (min_bound tmax FLT_MAX) ?t1 = min_bound (Finite ?hi) FLT_MAX"
    by (rule min_bound_FLT [symmetric])
  have impl: "slabLoop r box i tmin (min_bound tmax FLT_MAX) =
      (if ?lo > min_bound (Finite ?hi) FLT_MAX then None
       else slabLoop r box (i + 1) ?lo (min_bound (Finite ?hi) FLT_MAX))"
    unfolding hi [symmetric] using slab.hyps by (rule slabLoop_slab)
  have plan: "planLoop r box i tmin tmax =
      (if ?lo > ?hi then None else planLoop r box (i + 1) ?lo (Finite ?hi))"
    using slab.hyps box_ok_axis [OF ok, of i] by (simp add: planLoop_slab)
  show ?case
  proof (cases "?lo > min_bound (Finite ?hi) FLT_MAX")
    case False
    then have le: "?lo \<le> min_bound (Finite ?hi) FLT_MAX" by (simp only: not_less)
    then have "\<not> ?lo > ?hi" by (auto split: if_splits)
    with slab.IH [OF le] False show ?thesis by (simp only: impl plan if_False)
  next
    case True
    show ?thesis
    proof (cases "?lo > ?hi")
      case True
      with \<open>?lo > min_bound (Finite ?hi) FLT_MAX\<close> show ?thesis by (simp only: impl plan if_True option.case)
    next
      case False
      with True have big: "FLT_MAX < ?lo" by (auto split: if_splits)
      have "(case planLoop r box (i + 1) ?lo (Finite ?hi) of
          None \<Rightarrow> None
        | Some (a, bp) \<Rightarrow> if a \<le> FLT_MAX then Some (a, min_bound bp FLT_MAX) else None) = None"
      proof (cases "planLoop r box (i + 1) ?lo (Finite ?hi)")
        case None
        then show ?thesis by simp
      next
        case (Some p)
        obtain a bp where p: "p = (a, bp)" by (cases p)
        from planLoop_lower [OF ok] Some p have "?lo \<le> a" by blast
        with big have "\<not> a \<le> FLT_MAX" by linarith
        with Some p show ?thesis by simp
      qed
      with True False show ?thesis by (simp only: impl plan if_True if_False)
    qed
  qed
qed

lemma slabLoop_inside:
  assumes "inside r box"
  shows "0 \<le> tMax \<Longrightarrow> \<exists>b. slabLoop r box axis 0 tMax = Some (0, b)"
proof (induction axis "0::real" tMax rule: slabLoop_induct [where r = r and box = box])
  case (finished axis tMax)
  then show ?case by (simp add: slabLoop_end)
next
  case (parallel axis tMax)
  from inside_axis [OF assms parallel.hyps(1)] parallel.hyps(3) [OF parallel.prems] parallel.hyps(1,2)
  show ?case by (simp add: slabLoop_parallel not_less)
next
  case (slab axis tMax)
  let ?lo = "max 0 (fst (slabInterval r box axis))"
  let ?hi = "min tMax (snd (slabInterval r box axis))"
  from inside_axis [OF assms slab.hyps(1)]
  have iv: "fst (slabInterval r box axis) \<le> 0" "0 \<le> snd (slabInterval r box axis)"
    using slabInterval_inside [of box axis r] by simp_all
  then have lo: "?lo = 0" by simp
  from iv slab.prems have hi: "0 \<le> ?hi" by simp
  from slab.hyps(3) [OF lo hi] obtain b where
    rec: "slabLoop r box (axis + 1) ?lo ?hi = Some (0, b)"
    by (auto simp only: lo)
  from lo hi have "\<not> ?hi < ?lo" by (simp only: not_less)
  with slabLoop_slab [OF slab.hyps(1,2), of box 0 tMax] rec
  have "slabLoop r box axis 0 tMax = Some (0, b)" by (simp only: if_False)
  then show ?case ..
qed

text \<open>
  Claim C8, amended. For every ray and every box with \<open>min \<le> max\<close>, the implemented
  \<^verbatim>\<open>rayAabbSlab\<close> returns what the plan variant returns, except that a hit the plan
  variant reports with \<^verbatim>\<open>tNear\<close> above \<open>FLT_MAX\<close> is a miss of the implemented one:
  its \<^verbatim>\<open>tMax\<close> starts at the largest finite \<^verbatim>\<open>float\<close>, the plan's at infinity.
\<close>

theorem variants_agree_up_to_FLT_MAX:
  assumes "box_ok box"
  shows "rayAabbSlab r box =
     (case rayAabbSlab_plan r box of
        None \<Rightarrow> None
      | Some t \<Rightarrow> if t \<le> FLT_MAX then Some t else None)"
proof -
  have rel: "slabLoop r box 0 0 FLT_MAX =
       (case planLoop r box 0 0 Infinity of
          None \<Rightarrow> None
        | Some (a, bp) \<Rightarrow> if a \<le> FLT_MAX then Some (a, min_bound bp FLT_MAX) else None)"
    using slabLoop_plan [OF assms, of 0 Infinity r 0] FLT_MAX_pos by simp
  show ?thesis
  proof (cases "planLoop r box 0 0 Infinity")
    case None
    with rel have l: "slabLoop r box 0 0 FLT_MAX = None" by simp
    have "\<not> inside r box"
    proof
      assume "inside r box"
      from slabLoop_inside [OF this, of FLT_MAX 0] FLT_MAX_pos l show False by simp
    qed
    with l None show ?thesis by (simp add: rayAabbSlab_loop rayAabbSlab_plan_def)
  next
    case (Some p)
    obtain a bp where p: "p = (a, bp)" by (cases p)
    from planLoop_lower [OF assms] Some p have a0: "0 \<le> a" by blast
    with Some p have plan: "rayAabbSlab_plan r box = Some a"
      by (simp add: rayAabbSlab_plan_def)
    show ?thesis
    proof (cases "inside r box")
      case True
      from slabLoop_inside [OF this, of FLT_MAX 0] FLT_MAX_pos
      obtain b where "slabLoop r box 0 0 FLT_MAX = Some (0, b)" by auto
      with rel Some p have "a = 0" by (simp split: if_splits)
      with True plan FLT_MAX_pos show ?thesis by (simp add: rayAabbSlab_def slabFinish_def)
    next
      case False
      with rel Some p plan show ?thesis by (simp add: rayAabbSlab_loop)
    qed
  qed
qed

theorem variants_agree_up_to_FLT_MAX_witness:
  "box_ok \<lparr>min_corner = vec3 (-1) 0 (-1), max_corner = vec3 1 2 1\<rparr>
   \<and> rayAabbSlab_plan \<lparr>origin = vec3 0 1 (-2), dir = vec3 0 0 1\<rparr>
        \<lparr>min_corner = vec3 (-1) 0 (-1), max_corner = vec3 1 2 1\<rparr> = Some 1
   \<and> rayAabbSlab \<lparr>origin = vec3 0 1 (-2), dir = vec3 0 0 1\<rparr>
        \<lparr>min_corner = vec3 (-1) 0 (-1), max_corner = vec3 1 2 1\<rparr> = Some 1"
proof -
  let ?box = "\<lparr>min_corner = vec3 (-1) 0 (-1), max_corner = vec3 1 2 1\<rparr>"
  let ?r = "\<lparr>origin = vec3 0 1 (-2), dir = vec3 0 0 1\<rparr>"
  have b: "box_ok ?box" by (simp add: box_ok_def vec3_def)
  have p: "rayAabbSlab_plan ?r ?box = Some 1"
    by (simp add: plan_eval vec3_at_def vec3_def EPS_def)
  from variants_agree_up_to_FLT_MAX [OF b, of ?r] p b show ?thesis
    by (simp add: FLT_MAX_def)
qed

text \<open>
  Claim C8 as stated fails. The ray from \<open>(-FLT_MAX, 0, 0)\<close> along \<open>+x\<close> meets the box
  \<open>[2^127, FLT_MAX] \<times> [-1, 1] \<times> [-1, 1]\<close> beyond \<open>FLT_MAX\<close>: the implemented variant
  reports a miss, the plan variant a hit. (In \<^verbatim>\<open>float\<close> arithmetic both crossings
  overflow to infinity, with the same two answers.)
\<close>

theorem variants_differ_counterexample:
  "box_ok \<lparr>min_corner = vec3 (2 ^ 127) (-1) (-1), max_corner = vec3 FLT_MAX 1 1\<rparr>
   \<and> rayAabbSlab \<lparr>origin = vec3 (- FLT_MAX) 0 0, dir = vec3 1 0 0\<rparr>
        \<lparr>min_corner = vec3 (2 ^ 127) (-1) (-1), max_corner = vec3 FLT_MAX 1 1\<rparr> = None
   \<and> rayAabbSlab_plan \<lparr>origin = vec3 (- FLT_MAX) 0 0, dir = vec3 1 0 0\<rparr>
        \<lparr>min_corner = vec3 (2 ^ 127) (-1) (-1), max_corner = vec3 FLT_MAX 1 1\<rparr>
       = Some (2 ^ 127 + FLT_MAX)"
  by (simp add: slab_eval plan_eval)

section \<open>The picker loop\<close>

text \<open>The test \<^verbatim>\<open>tNear >= 0.0f\<close> of the picker always succeeds.\<close>

lemma pickLoop_step:
  "pickLoop r (ob # obs) closestId closestT =
     (case rayAabbSlab r (bounds ob) of
        None \<Rightarrow> pickLoop r obs closestId closestT
      | Some tNear \<Rightarrow>
          if tNear < closestT then pickLoop r obs (ob_id ob) tNear
          else pickLoop r obs closestId closestT)"
  by (auto split: option.splits dest: rayAabbSlab_nonneg)

declare pickLoop.simps(2) [simp del]

lemmas pick_eval = pickObjectId_def objects_def pickLoop.simps(2)

text \<open>Candidates that are missed, or hit no nearer than the current best, change nothing.\<close>

lemma pickLoop_unchanged:
  "\<forall>ob \<in> set obs. \<forall>t. rayAabbSlab r (bounds ob) = Some t \<longrightarrow> closestT \<le> t \<Longrightarrow>
   pickLoop r obs closestId closestT = closestId"
proof (induction obs)
  case Nil
  show ?case by simp
next
  case (Cons ob obs)
  then have "pickLoop r obs closestId closestT = closestId" by simp
  moreover from Cons.prems
  have "\<forall>t. rayAabbSlab r (bounds ob) = Some t \<longrightarrow> \<not> t < closestT"
    by (simp add: not_less)
  ultimately show ?case
    by (simp only: pickLoop_step split: option.splits) simp
qed

text \<open>
  The loop either keeps the \<open>closestId\<close> it started with, when no candidate is hit below
  \<open>closestT\<close>, or returns the identifier of a candidate hit below \<open>closestT\<close> whose
  \<^verbatim>\<open>tNear\<close> is minimal among all hits.
\<close>

lemma pickLoop_nearest:
  "(pickLoop r obs closestId closestT = closestId
      \<and> (\<forall>ob \<in> set obs. \<forall>t. rayAabbSlab r (bounds ob) = Some t \<longrightarrow> closestT \<le> t))
   \<or> (\<exists>ob \<in> set obs. \<exists>t. pickLoop r obs closestId closestT = ob_id ob
          \<and> rayAabbSlab r (bounds ob) = Some t \<and> t < closestT
          \<and> (\<forall>ob' \<in> set obs. \<forall>t'. rayAabbSlab r (bounds ob') = Some t' \<longrightarrow> t \<le> t'))"
proof (induction obs arbitrary: closestId closestT)
  case Nil
  show ?case by simp
next
  case (Cons ob obs)
  show ?case
  proof (cases "rayAabbSlab r (bounds ob)")
    case None
    with Cons.IH [of closestId closestT] show ?thesis
      by (simp only: pickLoop_step) auto
  next
    case (Some tNear)
    show ?thesis
    proof (cases "tNear < closestT")
      case True
      with Some have step: "pickLoop r (ob # obs) closestId closestT = pickLoop r obs (ob_id ob) tNear"
        by (simp only: pickLoop_step) simp
      from Cons.IH [of "ob_id ob" tNear] show ?thesis
      proof
        assume "pickLoop r obs (ob_id ob) tNear = ob_id ob
          \<and> (\<forall>ob' \<in> set obs. \<forall>t. rayAabbSlab r (bounds ob') = Some t \<longrightarrow> tNear \<le> t)"
        with Some True step have "pickLoop r (ob # obs) closestId closestT = ob_id ob
          \<and> rayAabbSlab r (bounds ob) = Some tNear \<and> tNear < closestT
          \<and> (\<forall>ob' \<in> set (ob # obs). \<forall>t'. rayAabbSlab r (bounds ob') = Some t' \<longrightarrow> tNear \<le> t')"
          by simp
        then show ?thesis by (intro disjI2 bexI [of _ ob] exI [of _ tNear]) simp_all
      next
        assume "\<exists>ob' \<in> set obs. \<exists>t. pickLoop r obs (ob_id ob) tNear = ob_id ob'
          \<and> rayAabbSlab r (bounds ob') = Some t \<and> t < tNear
          \<and> (\<forall>ob'' \<in> set obs. \<forall>t'. rayAabbSlab r (bounds ob'') = Some t' \<longrightarrow> t \<le> t')"
        then obtain ob' t where ob': "ob' \<in> set obs"
          and res: "pickLoop r obs (ob_id ob) tNear = ob_id ob'"
          and hit: "rayAabbSlab r (bounds ob') = Some t" and lt: "t < tNear"
          and mn: "\<forall>ob'' \<in> set obs. \<forall>t'. rayAabbSlab r (bounds ob'') = Some t' \<longrightarrow> t \<le> t'"
          by blast
        from lt True Some mn
        have "t < closestT \<and> (\<forall>ob'' \<in> set (ob # obs). \<forall>t'. rayAabbSlab r (bounds ob'') = Some t' \<longrightarrow> t \<le> t')"
          by simp
        with ob' res hit step show ?thesis
          by (intro disjI2 bexI [of _ ob'] exI [of _ t]) simp_all
      qed
    next
      case False
      with Some have step: "pickLoop r (ob # obs) closestId closestT = pickLoop r obs closestId closestT"
        by (simp only: pickLoop_step) simp
      from False have ge: "closestT \<le> tNear" by simp
      from Cons.IH [of closestId closestT] show ?thesis
      proof
        assume "pickLoop r obs closestId closestT = closestId
          \<and> (\<forall>ob' \<in> set obs. \<forall>t. rayAabbSlab r (bounds ob') = Some t \<longrightarrow> closestT \<le> t)"
        with Some ge step show ?thesis by simp
      next
        assume "\<exists>ob' \<in> set obs. \<exists>t. pickLoop r obs closestId closestT = ob_id ob'
          \<and> rayAabbSlab r (bounds ob') = Some t \<and> t < closestT
          \<and> (\<forall>ob'' \<in> set obs. \<forall>t'. rayAabbSlab r (bounds ob'') = Some t' \<longrightarrow> t \<le> t')"
        then obtain ob' t where ob': "ob' \<in> set obs"
          and res: "pickLoop r obs closestId closestT = ob_id ob'"
          and hit: "rayAabbSlab r (bounds ob') = Some t" and lt: "t < closestT"
          and mn: "\<forall>ob'' \<in> set obs. \<forall>t'. rayAabbSlab r (bounds ob'') = Some t' \<longrightarrow> t \<le> t'"
          by blast
        from lt ge Some mn
        have "\<forall>ob'' \<in> set (ob # obs). \<forall>t'. rayAabbSlab r (bounds ob'') = Some t' \<longrightarrow> t \<le> t'"
          by simp
        with ob' res hit lt step show ?thesis
          by (intro disjI2 bexI [of _ ob'] exI [of _ t]) simp_all
      qed
    qed
  qed
qed

text \<open>
  A candidate hit below \<open>closestT\<close>, strictly nearer than every hit before it and at
  least as near as every hit after it, is the one returned.
\<close>

lemma pickLoop_first:
  assumes hit: "rayAabbSlab r (bounds ob) = Some t"
    and later: "\<forall>ob' \<in> set post. \<forall>t'. rayAabbSlab r (bounds ob') = Some t' \<longrightarrow> t \<le> t'"
  shows "t < closestT \<Longrightarrow>
    \<forall>ob' \<in> set pre. \<forall>t'. rayAabbSlab r (bounds ob') = Some t' \<longrightarrow> t < t' \<Longrightarrow>
    pickLoop r (pre @ ob # post) closestId closestT = ob_id ob"
proof (induction pre arbitrary: closestId closestT)
  case Nil
  from pickLoop_unchanged [OF later] hit Nil.prems(1) show ?case
    by (simp only: append_Nil pickLoop_step) simp
next
  case (Cons p pre)
  from Cons.prems(2) have rest: "\<forall>ob' \<in> set pre. \<forall>t'. rayAabbSlab r (bounds ob') = Some t' \<longrightarrow> t < t'"
    by simp
  show ?case
  proof (cases "rayAabbSlab r (bounds p)")
    case None
    with Cons.IH [OF Cons.prems(1) rest] show ?thesis
      by (simp only: append_Cons pickLoop_step) simp
  next
    case (Some tp)
    with Cons.prems(2) have "t < tp" by simp
    from Cons.IH [OF this rest] Cons.IH [OF Cons.prems(1) rest] Some show ?thesis
      by (simp only: append_Cons pickLoop_step) simp
  qed
qed

section \<open>The picker on the table of five boxes\<close>

lemma objects_ids: "ob \<in> set objects \<Longrightarrow> ob_id ob \<in> {0, 1, 2, 3, 4} \<and> objects ! nat (ob_id ob) = ob"
  by (auto simp: objects_def)

text \<open>
  The two evidence hooks of the source, \<^verbatim>\<open>testRayHit\<close> and \<^verbatim>\<open>testRayMiss\<close>: the
  identifiers they expect are the ones returned.
\<close>

lemma pick_scenario_hit: "pickObjectId \<lparr>origin = vec3 0 1 (-2), dir = vec3 0 0 1\<rparr> = 0"
  by (simp add: pick_eval slab_eval)

lemma pick_scenario_miss: "pickObjectId \<lparr>origin = vec3 10 10 10, dir = vec3 1 0 0\<rparr> = -1"
  by (simp add: pick_eval slab_eval)

text \<open>
  Claim C9. For every ray, \<^verbatim>\<open>pickObjectId\<close> returns \<open>-1\<close> or one of the identifiers
  0, 1, 2, 3, 4 of the table; and whenever it returns an identifier \<open>i \<ge> 0\<close>,
  \<^verbatim>\<open>rayAabbSlab\<close> reports a hit on the box of candidate \<open>i\<close>, with a \<^verbatim>\<open>tNear\<close> that is
  minimal among the candidates that are hit.
\<close>

theorem pickObjectId_sound:
  "pickObjectId r \<in> {-1, 0, 1, 2, 3, 4}
   \<and> (0 \<le> pickObjectId r \<longrightarrow>
        (\<exists>t. rayAabbSlab r (bounds (objects ! nat (pickObjectId r))) = Some t
           \<and> (\<forall>ob \<in> set objects. \<forall>t'. rayAabbSlab r (bounds ob) = Some t' \<longrightarrow> t \<le> t')))"
proof -
  from pickLoop_nearest [of r objects "-1" FLT_MAX]
  show ?thesis
  proof
    assume "pickLoop r objects (- 1) FLT_MAX = - 1
      \<and> (\<forall>ob \<in> set objects. \<forall>t. rayAabbSlab r (bounds ob) = Some t \<longrightarrow> FLT_MAX \<le> t)"
    then show ?thesis by (simp add: pickObjectId_def)
  next
    assume "\<exists>ob \<in> set objects. \<exists>t. pickLoop r objects (- 1) FLT_MAX = ob_id ob
          \<and> rayAabbSlab r (bounds ob) = Some t \<and> t < FLT_MAX
          \<and> (\<forall>ob' \<in> set objects. \<forall>t'. rayAabbSlab r (bounds ob') = Some t' \<longrightarrow> t \<le> t')"
    then obtain ob t where ob: "ob \<in> set objects"
      and res: "pickObjectId r = ob_id ob"
      and hit: "rayAabbSlab r (bounds ob) = Some t"
      and mn: "\<forall>ob' \<in> set objects. \<forall>t'. rayAabbSlab r (bounds ob') = Some t' \<longrightarrow> t \<le> t'"
      by (auto simp: pickObjectId_def)
    from objects_ids [OF ob] res
    have "pickObjectId r \<in> {0, 1, 2, 3, 4}" and "objects ! nat (pickObjectId r) = ob"
      by simp_all
    with hit mn show ?thesis by auto
  qed
qed

theorem pickObjectId_sound_witness:
  "0 \<le> pickObjectId \<lparr>origin = vec3 0 1 (-2), dir = vec3 0 0 1\<rparr>
   \<and> pickObjectId \<lparr>origin = vec3 0 1 (-2), dir = vec3 0 0 1\<rparr> = 0
   \<and> rayAabbSlab \<lparr>origin = vec3 0 1 (-2), dir = vec3 0 0 1\<rparr> (bounds (objects ! 0)) = Some 1
   \<and> rayAabbSlab \<lparr>origin = vec3 0 1 (-2), dir = vec3 0 0 1\<rparr> (bounds (objects ! 3)) = Some 4
   \<and> objects ! 3 \<in> set objects
   \<and> (1::real) \<le> 4"
proof -
  let ?r = "\<lparr>origin = vec3 0 1 (-2), dir = vec3 0 0 1\<rparr>"
  have p: "pickObjectId ?r = 0" by (simp add: pick_eval slab_eval)
  have h0: "rayAabbSlab ?r (bounds (objects ! 0)) = Some 1"
    and h3: "rayAabbSlab ?r (bounds (objects ! 3)) = Some 4"
    by (simp_all add: objects_def slab_eval)
  have m: "objects ! 3 \<in> set objects" by (simp add: objects_def)
  from pickObjectId_sound [of ?r] p h0 m h3 have "(1::real) \<le> 4" by auto
  with p h0 h3 m show ?thesis by simp
qed

text \<open>
  Claim C1, at the input where the code departs from it. The ray from
  \<open>(-FLT_MAX, 0.5, 2.25)\<close> along \<open>+x\<close> hits the box of candidate 3, and no other, at
  \<^verbatim>\<open>tNear = FLT_MAX\<close>. The test \<^verbatim>\<open>tNear < closestT\<close> against the initial
  \<^verbatim>\<open>closestT = FLT_MAX\<close> fails, and \<^verbatim>\<open>pickObjectId\<close> returns \<open>-1\<close> although a
  candidate is hit. For every hit below \<open>FLT_MAX\<close> the loop does return a nearest
  candidate: that is \<open>pickLoop_nearest\<close>.
\<close>

theorem pick_misses_hit_at_FLT_MAX:
  "rayAabbSlab \<lparr>origin = vec3 (- FLT_MAX) 0.5 2.25, dir = vec3 1 0 0\<rparr>
      (bounds (objects ! 3)) = Some FLT_MAX
   \<and> pickObjectId \<lparr>origin = vec3 (- FLT_MAX) 0.5 2.25, dir = vec3 1 0 0\<rparr> = -1"
  by (simp add: pick_eval slab_eval)

section \<open>Ties in the picker loop\<close>

text \<open>
  When two candidates \<open>i < j\<close> of a sequence produce the same \<^verbatim>\<open>tNear\<close>, minimal among
  all hits and below the initial \<^verbatim>\<open>closestT\<close>, and no candidate before \<open>i\<close> produces it,
  the loop started as in \<^verbatim>\<open>pickObjectId\<close> returns the identifier of candidate \<open>i\<close>: the
  strict \<^verbatim>\<open><\<close> keeps the first. At \<^verbatim>\<open>tNear = FLT_MAX\<close> the same strict \<^verbatim>\<open><\<close> rejects
  every candidate (\<open>pickLoop_unchanged\<close>).
\<close>

lemma pickLoop_tie_first:
  assumes "i < j" and "j < length obs"
    and "rayAabbSlab r (bounds (obs ! i)) = Some t"
    and "rayAabbSlab r (bounds (obs ! j)) = Some t"
    and "\<forall>k < length obs. \<forall>t'. rayAabbSlab r (bounds (obs ! k)) = Some t' \<longrightarrow> t \<le> t'"
    and "\<forall>k < i. rayAabbSlab r (bounds (obs ! k)) \<noteq> Some t"
    and "t < FLT_MAX"
  shows "pickLoop r obs (-1) FLT_MAX = ob_id (obs ! i)"
proof -
  from assms(1,2) have i: "i < length obs" by simp
  then have split: "obs = take i obs @ obs ! i # drop (Suc i) obs"
    by (rule id_take_nth_drop)
  have pre: "\<forall>ob' \<in> set (take i obs). \<forall>t'. rayAabbSlab r (bounds ob') = Some t' \<longrightarrow> t < t'"
  proof (intro ballI allI impI)
    fix ob' t'
    assume "ob' \<in> set (take i obs)" and h: "rayAabbSlab r (bounds ob') = Some t'"
    then obtain k where k: "k < i" "ob' = obs ! k"
      using i by (auto simp: in_set_conv_nth)
    from k i have "k < length obs" by simp
    with assms(5) k h have "t \<le> t'" by blast
    moreover from assms(6) k h have "t' \<noteq> t" by auto
    ultimately show "t < t'" by simp
  qed
  have post: "\<forall>ob' \<in> set (drop (Suc i) obs). \<forall>t'. rayAabbSlab r (bounds ob') = Some t' \<longrightarrow> t \<le> t'"
  proof (intro ballI allI impI)
    fix ob' t'
    assume "ob' \<in> set (drop (Suc i) obs)" and h: "rayAabbSlab r (bounds ob') = Some t'"
    then have "ob' \<in> set obs" by (auto dest: in_set_dropD)
    then obtain k where "k < length obs" "ob' = obs ! k" by (auto simp: in_set_conv_nth)
    with assms(5) h show "t \<le> t'" by auto
  qed
  from pickLoop_first [OF assms(3) post assms(7) pre, of "-1"] split show ?thesis by simp
qed

end
